theory Spec2Isabelle
  imports Main "HOL-Library.Word"
begin

unbundle bit_operations_syntax

section \<open>The reader chip behind the I2C bus\<close>

text \<open>
  The driver in \<^verbatim>\<open>rfid.py\<close> talks to the reader chip only through
  \<^verbatim>\<open>self.i2c.readfrom_mem(self.address, reg, 1)\<close> and
  \<^verbatim>\<open>self.i2c.writeto_mem(self.address, reg, bytes)\<close>. The bus object is a
  constructor argument, so it is a parameter of the model as well: a pair of
  functions over an arbitrary chip state \<open>'d\<close>. A read returns the one byte of
  the \<^verbatim>\<open>bytes\<close> object and the chip state after the read; a write returns
  the chip state after the write. The bus is already bound to \<^verbatim>\<open>self.address\<close>,
  and it answers every call: a transport fault is outside the model.

  The methods keep their names without the leading underscore
  (\<^verbatim>\<open>_tocard\<close> is \<open>tocard\<close>); \<^verbatim>\<open>_readTagID\<close> is \<open>readTagID_priv\<close>, next
  to the public \<open>readTagID\<close>. A method takes the bus and the chip state (or,
  from \<^verbatim>\<open>_detectTag\<close> up, the part of \<^verbatim>\<open>self\<close> it changes) and returns
  its result with the new state.

  A register value is a byte (\<open>8 word\<close>): it comes out of a \<^verbatim>\<open>bytes\<close>
  object and goes into one. The driver combines bytes only with \<^verbatim>\<open>|\<close>,
  \<^verbatim>\<open>&\<close>, \<^verbatim>\<open>& ~mask\<close> and \<^verbatim>\<open>^\<close> against byte constants, which on
  Python's integers gives the same byte as the operation on \<open>8 word\<close>, so
  \<^verbatim>\<open>bytes([val])\<close> never sees a value outside \<open>0..255\<close>. Counters and bit
  counts are Python integers: \<open>nat\<close> for the loop budgets, which start at a
  positive constant and stop at 0, and \<open>int\<close> for \<^verbatim>\<open>bits\<close>, which can be
  negative.
\<close>

type_synonym byte = "8 word"

record 'd i2c =
  readfrom_mem :: "'d \<Rightarrow> int \<Rightarrow> byte \<times> 'd"
  writeto_mem :: "'d \<Rightarrow> int \<Rightarrow> byte list \<Rightarrow> 'd"

abbreviation REG_COMMAND :: int where "REG_COMMAND \<equiv> 0x01"
abbreviation REG_COM_IRQ :: int where "REG_COM_IRQ \<equiv> 0x04"
abbreviation REG_DIV_IRQ :: int where "REG_DIV_IRQ \<equiv> 0x05"
abbreviation REG_ERROR :: int where "REG_ERROR \<equiv> 0x06"
abbreviation REG_FIFO_DATA :: int where "REG_FIFO_DATA \<equiv> 0x09"
abbreviation REG_FIFO_LEVEL :: int where "REG_FIFO_LEVEL \<equiv> 0x0A"
abbreviation REG_CONTROL :: int where "REG_CONTROL \<equiv> 0x0C"
abbreviation REG_BIT_FRAMING :: int where "REG_BIT_FRAMING \<equiv> 0x0D"
abbreviation REG_TX_CONTROL :: int where "REG_TX_CONTROL \<equiv> 0x14"
abbreviation REG_CRC_RESULT_MSB :: int where "REG_CRC_RESULT_MSB \<equiv> 0x21"
abbreviation REG_CRC_RESULT_LSB :: int where "REG_CRC_RESULT_LSB \<equiv> 0x22"

abbreviation CMD_IDLE :: byte where "CMD_IDLE \<equiv> 0x00"
abbreviation CMD_CALC_CRC :: byte where "CMD_CALC_CRC \<equiv> 0x03"
abbreviation CMD_TRANCEIVE :: byte where "CMD_TRANCEIVE \<equiv> 0x0C"
abbreviation CMD_MF_AUTHENT :: byte where "CMD_MF_AUTHENT \<equiv> 0x0E"

abbreviation TAG_CMD_REQIDL :: byte where "TAG_CMD_REQIDL \<equiv> 0x26"
abbreviation TAG_CMD_ANTCOL1 :: byte where "TAG_CMD_ANTCOL1 \<equiv> 0x93"
abbreviation TAG_CMD_ANTCOL2 :: byte where "TAG_CMD_ANTCOL2 \<equiv> 0x95"
abbreviation TAG_CMD_ANTCOL3 :: byte where "TAG_CMD_ANTCOL3 \<equiv> 0x97"

text \<open>The class constants \<^verbatim>\<open>OK = 1\<close>, \<^verbatim>\<open>NOTAGERR = 2\<close>, \<^verbatim>\<open>ERR = 3\<close>.\<close>

datatype status = OK | NOTAGERR | ERR

datatype py_error = TypeError

section \<open>Register access\<close>

definition wreg :: "'d i2c \<Rightarrow> 'd \<Rightarrow> int \<Rightarrow> byte \<Rightarrow> 'd" where
  "wreg b d reg val = writeto_mem b d reg [val]"

definition wfifo :: "'d i2c \<Rightarrow> 'd \<Rightarrow> int \<Rightarrow> byte list \<Rightarrow> 'd" where
  "wfifo b d reg val = writeto_mem b d reg val"

definition rreg :: "'d i2c \<Rightarrow> 'd \<Rightarrow> int \<Rightarrow> byte \<times> 'd" where
  "rreg b d reg = readfrom_mem b d reg"

definition sflags :: "'d i2c \<Rightarrow> 'd \<Rightarrow> int \<Rightarrow> byte \<Rightarrow> 'd" where
  "sflags b d reg msk =
     (let (current_value, d1) = rreg b d reg
      in wreg b d1 reg (current_value OR msk))"

definition cflags :: "'d i2c \<Rightarrow> 'd \<Rightarrow> int \<Rightarrow> byte \<Rightarrow> 'd" where
  "cflags b d reg msk =
     (let (v, d1) = rreg b d reg
      in wreg b d1 reg (v AND NOT msk))"

section \<open>The command runner\<close>

text \<open>
  The interrupt-enable mask and the wait mask that \<^verbatim>\<open>_tocard\<close> picks for
  a command (both stay 0 for a command that is neither of the two).
\<close>

definition irq_en_of :: "byte \<Rightarrow> byte" where
  "irq_en_of cmd =
     (if cmd = CMD_MF_AUTHENT then 0x12 else if cmd = CMD_TRANCEIVE then 0x77 else 0)"

definition wait_irq_of :: "byte \<Rightarrow> byte" where
  "wait_irq_of cmd =
     (if cmd = CMD_MF_AUTHENT then 0x10 else if cmd = CMD_TRANCEIVE then 0x30 else 0)"

text \<open>
  The poll loop of \<^verbatim>\<open>_tocard\<close>: read the interrupt-request register,
  decrement the budget, leave on a wait bit, on the timer bit, or when the
  budget reaches 0. The result is the last value read, the budget left and the
  chip state. The source starts the budget at 20000 and leaves the loop when
  it is 0, so it never goes below 0 and is a \<open>nat\<close> here.
\<close>

function tocard_poll :: "'d i2c \<Rightarrow> 'd \<Rightarrow> byte \<Rightarrow> nat \<Rightarrow> byte \<times> nat \<times> 'd" where
  "tocard_poll b d wait_irq i =
     (let (n, d1) = rreg b d REG_COM_IRQ;
          i1 = i - 1
      in if n AND wait_irq \<noteq> 0 then (n, i1, d1)
         else if n AND 0x01 \<noteq> 0 then (n, i1, d1)
         else if i1 = 0 then (n, i1, d1)
         else tocard_poll b d1 wait_irq i1)"
  by pat_completeness auto
termination
  by (relation "measure (\<lambda>(b, d, w, i). i)") auto

declare tocard_poll.simps [simp del]

text \<open>\<^verbatim>\<open>for _ in range(n): recv.append(self._rreg(_REG_FIFO_DATA))\<close>\<close>

fun fifo_drain :: "'d i2c \<Rightarrow> 'd \<Rightarrow> nat \<Rightarrow> byte list \<times> 'd" where
  "fifo_drain b d 0 = ([], d)"
| "fifo_drain b d (Suc k) =
     (let (x, d1) = rreg b d REG_FIFO_DATA;
          (xs, d2) = fifo_drain b d1 k
      in (x # xs, d2))"

definition tocard :: "'d i2c \<Rightarrow> 'd \<Rightarrow> byte \<Rightarrow> byte list \<Rightarrow> status \<times> byte list \<times> int \<times> 'd" where
  "tocard b d cmd send =
     (let irq_en = irq_en_of cmd;
          wait_irq = wait_irq_of cmd;
          d1 = wreg b d REG_COMMAND CMD_IDLE;
          d2 = wreg b d1 REG_COM_IRQ 0x7F;
          d3 = sflags b d2 REG_FIFO_LEVEL 0x80;
          d4 = wfifo b d3 REG_FIFO_DATA send;
          d5 = (if cmd = CMD_TRANCEIVE then sflags b d4 REG_BIT_FRAMING 0x00 else d4);
          d6 = wreg b d5 REG_COMMAND cmd;
          d7 = (if cmd = CMD_TRANCEIVE then sflags b d6 REG_BIT_FRAMING 0x80 else d6);
          (n, i, d8) = tocard_poll b d7 wait_irq 20000;
          d9 = cflags b d8 REG_BIT_FRAMING 0x80
      in if i \<noteq> 0 then
           (let (e, d10) = rreg b d9 REG_ERROR
            in if e AND 0x1B = 0x00 then
                 (if n AND irq_en AND 0x01 \<noteq> 0 then (NOTAGERR, [], 0, d10)
                  else if cmd = CMD_TRANCEIVE then
                    (let (n1, d11) = rreg b d10 REG_FIFO_LEVEL;
                         (c, d12) = rreg b d11 REG_CONTROL;
                         lbits = c AND 0x07;
                         bits = (if lbits \<noteq> 0 then (uint n1 - 1) * 8 + uint lbits
                                 else uint n1 * 8);
                         n2 = (if n1 = 0 then 1 else if n1 > 16 then 16 else n1);
                         (recv, d13) = fifo_drain b d12 (unat n2)
                     in (OK, recv, bits, d13))
                  else (OK, [], 0, d10))
               else (ERR, [], 0, d10))
         else (ERR, [], 0, d9))"

section \<open>The CRC co-processor\<close>

text \<open>
  The poll loop of \<^verbatim>\<open>_crc\<close>: it leaves when the budget reaches 0 or the
  CRC-done flag \<open>0x04\<close> is set.
\<close>

function crc_poll :: "'d i2c \<Rightarrow> 'd \<Rightarrow> nat \<Rightarrow> byte \<times> nat \<times> 'd" where
  "crc_poll b d i =
     (let (n, d1) = rreg b d REG_DIV_IRQ;
          i1 = i - 1
      in if \<not> (i1 \<noteq> 0 \<and> \<not> (n AND 0x04 \<noteq> 0)) then (n, i1, d1)
         else crc_poll b d1 i1)"
  by pat_completeness auto
termination
  by (relation "measure (\<lambda>(b, d, i). i)") auto

declare crc_poll.simps [simp del]

definition crc :: "'d i2c \<Rightarrow> 'd \<Rightarrow> byte list \<Rightarrow> byte list \<times> 'd" where
  "crc b d data =
     (let d1 = wreg b d REG_COMMAND CMD_IDLE;
          d2 = cflags b d1 REG_DIV_IRQ 0x04;
          d3 = sflags b d2 REG_FIFO_LEVEL 0x80;
          d4 = fold (\<lambda>c x. wreg b x REG_FIFO_DATA c) data d3;
          d5 = wreg b d4 REG_COMMAND CMD_CALC_CRC;
          (n, i, d6) = crc_poll b d5 0xFF;
          d7 = wreg b d6 REG_COMMAND CMD_IDLE;
          (lsb, d8) = rreg b d7 REG_CRC_RESULT_LSB;
          (msb, d9) = rreg b d8 REG_CRC_RESULT_MSB
      in ([lsb, msb], d9))"

section \<open>Request, anticollision, select\<close>

definition request :: "'d i2c \<Rightarrow> 'd \<Rightarrow> byte \<Rightarrow> status \<times> int \<times> 'd" where
  "request b d mode =
     (let d1 = wreg b d REG_BIT_FRAMING 0x07;
          (stat, recv, bits, d2) = tocard b d1 CMD_TRANCEIVE [mode]
      in ((if stat \<noteq> OK \<or> bits \<noteq> 0x10 then ERR else stat), bits, d2))"

text \<open>
  \<^verbatim>\<open>for i in range(4): ser_chk = ser_chk ^ recv[i]\<close>, starting from 0. The
  loop runs only when \<^verbatim>\<open>len(recv) == 5\<close>, so every index is in range.
\<close>

definition ser_chk_of :: "byte list \<Rightarrow> byte" where
  "ser_chk_of recv = fold (\<lambda>i ser_chk. ser_chk XOR recv ! i) [0..<4] 0"

definition anticoll :: "'d i2c \<Rightarrow> 'd \<Rightarrow> byte \<Rightarrow> status \<times> byte list \<times> 'd" where
  "anticoll b d anticolN =
     (let ser = [anticolN, 0x20];
          d1 = wreg b d REG_BIT_FRAMING 0x00;
          (stat, recv, bits, d2) = tocard b d1 CMD_TRANCEIVE ser
      in ((if stat = OK then
             (if length recv = 5 then
                (if ser_chk_of recv \<noteq> recv ! 4 then ERR else stat)
              else ERR)
           else stat), recv, d2))"

text \<open>\<^verbatim>\<open>_selectTag\<close> returns the Python integer 1 or 0.\<close>

definition selectTag :: "'d i2c \<Rightarrow> 'd \<Rightarrow> byte list \<Rightarrow> byte \<Rightarrow> int \<times> 'd" where
  "selectTag b d serNum anticolN =
     (let buf = [anticolN, 0x70] @ serNum;
          (pOut, d1) = crc b d buf;
          buf1 = buf @ [pOut ! 0] @ [pOut ! 1];
          (status, backData, backLen, d2) = tocard b d1 0x0C buf1
      in if status = OK \<and> backLen = 0x18 then (1, d2) else (0, d2))"

section \<open>Reading the tag identifier\<close>

record tag_id =
  success :: bool
  id_integers :: "byte list"
  id_formatted :: string
  tag_type :: string

text \<open>
  \<^verbatim>\<open>hex(x)[2:]\<close> for a non-negative integer: the lower-case hexadecimal
  digits, without leading zeros.
\<close>

definition hex_digit :: "nat \<Rightarrow> char" where
  "hex_digit n = ''0123456789abcdef'' ! n"

fun py_hex :: "nat \<Rightarrow> string" where
  "py_hex n = (if n < 16 then [hex_digit n] else py_hex (n div 16) @ [hex_digit (n mod 16)])"

declare py_hex.simps [simp del]

text \<open>\<^verbatim>\<open>str.upper()\<close> on the ASCII characters the driver produces.\<close>

definition upper_char :: "char \<Rightarrow> char" where
  "upper_char c =
     (let k = (of_char c :: nat)
      in if 97 \<le> k \<and> k \<le> 122 then char_of (k - 32) else c)"

definition upper :: "string \<Rightarrow> string" where
  "upper s = map upper_char s"

text \<open>
  The formatting loop of \<^verbatim>\<open>_readTagID\<close>, run over the bytes that are
  left of \<^verbatim>\<open>id\<close> from index \<open>i\<close> on, with the string built so far.
\<close>

fun format_loop :: "byte list \<Rightarrow> nat \<Rightarrow> string \<Rightarrow> string" where
  "format_loop [] i s = s"
| "format_loop (x # xs) i s =
     (let s1 = (if i > 0 then s @ '':'' else s);
          s2 = (if x < 16 then s1 @ ''0'' else s1);
          s3 = s2 @ py_hex (unat x)
      in format_loop xs (i + 1) s3)"

text \<open>
  The value of \<^verbatim>\<open>id_formatted.upper()\<close> after the formatting loop has run
  over all of \<^verbatim>\<open>id\<close>.
\<close>

definition format_id :: "byte list \<Rightarrow> string" where
  "format_id ident = upper (format_loop ident 0 [])"

text \<open>
  The tail of \<^verbatim>\<open>_readTagID\<close> from \<^verbatim>\<open>valid_uid.extend(uid[0:5])\<close> on,
  given the bytes collected so far and the last fragment.
\<close>

definition finish_id :: "byte list \<Rightarrow> byte list \<Rightarrow> tag_id" where
  "finish_id valid_uid uid =
     (let valid_uid1 = valid_uid @ take 5 uid;
          ident = take (length valid_uid1 - 1) valid_uid1;
          formatted = format_loop ident 0 [];
          ty = (if length ident = 4 then ''classic'' else ''ntag'')
      in \<lparr>success = True, id_integers = ident,
          id_formatted = upper formatted, tag_type = ty\<rparr>)"

definition result0 :: tag_id where
  "result0 = \<lparr>success = False, id_integers = [], id_formatted = [], tag_type = []\<rparr>"

text \<open>
  \<^verbatim>\<open>_readTagID\<close>. The fragment \<^verbatim>\<open>uid\<close> is indexed only after
  \<^verbatim>\<open>_anticoll\<close> returned \<^verbatim>\<open>OK\<close>, which it does only for five bytes
  (lemma \<open>anticoll_OK_length\<close> below), so \<^verbatim>\<open>uid[0]\<close> is in range.
\<close>

definition readTagID_priv :: "'d i2c \<Rightarrow> 'd \<Rightarrow> tag_id \<times> 'd" where
  "readTagID_priv b d =
     (let result = result0;
          (status, uid, d1) = anticoll b d TAG_CMD_ANTCOL1
      in if status \<noteq> OK then (result, d1)
         else
           (let (rtn1, d2) = selectTag b d1 uid TAG_CMD_ANTCOL1
            in if rtn1 = 0 then (result, d2)
               else if uid ! 0 = 0x88 then
                 (let valid_uid = take 3 (drop 1 uid);
                      (status2, uid2, d3) = anticoll b d2 TAG_CMD_ANTCOL2
                  in if status2 \<noteq> OK then (result, d3)
                     else
                       (let (rtn, d4) = selectTag b d3 uid2 TAG_CMD_ANTCOL2
                        in if rtn = 0 then (result, d4)
                           else if uid2 ! 0 = 0x88 then
                             (let valid_uid2 = valid_uid @ take 3 (drop 1 uid2);
                                  (status3, uid3, d5) = anticoll b d4 TAG_CMD_ANTCOL3
                              in if status3 \<noteq> OK then (result, d5)
                                 else (finish_id valid_uid2 uid3, d5))
                           else (finish_id valid_uid uid2, d4)))
               else (finish_id [] uid, d2)))"

section \<open>Detection and the public calls\<close>

text \<open>
  The part of \<^verbatim>\<open>self\<close> that these methods change: the chip behind the bus
  and the two flags.
\<close>

record 'd rfid =
  chip :: 'd
  tag_present :: bool
  read_tag_id_success :: bool

record detect_result =
  present :: bool
  ATQA :: int

definition detectTag :: "'d i2c \<Rightarrow> 'd rfid \<Rightarrow> detect_result \<times> 'd rfid" where
  "detectTag b s =
     (let (stat, atqa, d1) = request b (chip s) TAG_CMD_REQIDL;
          p = (stat = OK)
      in (\<lparr>present = p, ATQA = atqa\<rparr>, s\<lparr>chip := d1, tag_present := p\<rparr>))"

definition readTagID :: "'d i2c \<Rightarrow> 'd rfid \<Rightarrow> tag_id \<times> 'd rfid" where
  "readTagID b s =
     (let (r1, s1) = detectTag b s;
          (r2, s2) = (if \<not> present r1 then detectTag b s1 else (r1, s1))
      in if present r2 then
           (let (res, d3) = readTagID_priv b (chip s2)
            in if success res then
                 (\<lparr>success = success res, id_integers = id_integers res,
                   id_formatted = id_formatted res, tag_type = tag_type res\<rparr>,
                  s2\<lparr>chip := d3, read_tag_id_success := True\<rparr>)
               else
                 (\<lparr>success = False, id_integers = [0], id_formatted = [], tag_type = []\<rparr>,
                  s2\<lparr>chip := d3, read_tag_id_success := False\<rparr>))
         else
           (\<lparr>success = False, id_integers = [0], id_formatted = [], tag_type = []\<rparr>,
            s2\<lparr>read_tag_id_success := False\<rparr>))"

definition tagPresent :: "'d i2c \<Rightarrow> 'd rfid \<Rightarrow> bool \<times> 'd rfid" where
  "tagPresent b s = (let (ident, s1) = readTagID b s in (success ident, s1))"

section \<open>The antenna\<close>

text \<open>
  The guards are written on Python's integers: \<^verbatim>\<open>~x\<close> is \<open>- x - 1\<close>, which
  is \<open>NOT\<close> on \<open>int\<close>, and a number is true when it is not 0.

  In \<^verbatim>\<open>antennaOff\<close> the body calls \<^verbatim>\<open>_cflags\<close> with the \<^verbatim>\<open>bytes\<close>
  object \<^verbatim>\<open>b'\x03'\<close> as the mask: \<^verbatim>\<open>_cflags\<close> reads the register and then
  evaluates \<^verbatim>\<open>~mask\<close>, which raises \<^verbatim>\<open>TypeError\<close> for a \<^verbatim>\<open>bytes\<close>
  operand.
\<close>

definition antennaOn :: "'d i2c \<Rightarrow> 'd \<Rightarrow> 'd" where
  "antennaOn b d =
     (let (v, d1) = rreg b d REG_TX_CONTROL
      in if NOT (uint v AND 0x03) \<noteq> (0 :: int) then sflags b d1 REG_TX_CONTROL 0x83 else d1)"

definition antennaOff :: "'d i2c \<Rightarrow> 'd \<Rightarrow> py_error + 'd" where
  "antennaOff b d =
     (let (v, d1) = rreg b d REG_TX_CONTROL
      in if \<not> (NOT (uint v AND 0x03) \<noteq> (0 :: int)) then
           (let (v1, d2) = rreg b d1 REG_TX_CONTROL in Inl TypeError)
         else Inr d1)"

section \<open>Two concrete chips\<close>

text \<open>
  A scripted chip: every register has a stream of the bytes its next reads
  return, and reads 0 once its stream is used up. Writes are ignored: the
  driver never sees what a write did except through later reads, and those are
  what the script fixes.
\<close>

fun stream_of :: "(int \<times> byte list) list \<Rightarrow> int \<Rightarrow> byte list" where
  "stream_of [] reg = []"
| "stream_of ((k, v) # ps) reg = (if k = reg then v else stream_of ps reg)"

fun set_stream :: "(int \<times> byte list) list \<Rightarrow> int \<Rightarrow> byte list \<Rightarrow> (int \<times> byte list) list" where
  "set_stream [] reg v = [(reg, v)]"
| "set_stream ((k, w) # ps) reg v =
     (if k = reg then (k, v) # ps else (k, w) # set_stream ps reg v)"

record script_chip =
  pending :: "(int \<times> byte list) list"

definition script_read :: "script_chip \<Rightarrow> int \<Rightarrow> byte \<times> script_chip" where
  "script_read c reg =
     (case stream_of (pending c) reg of
        [] \<Rightarrow> (0, c)
      | x # xs \<Rightarrow> (x, c\<lparr>pending := set_stream (pending c) reg xs\<rparr>))"

definition script_write :: "script_chip \<Rightarrow> int \<Rightarrow> byte list \<Rightarrow> script_chip" where
  "script_write c reg bs = c"

definition script_bus :: "script_chip i2c" where
  "script_bus = \<lparr>readfrom_mem = script_read, writeto_mem = script_write\<rparr>"

text \<open>
  A register file: a read returns the byte last written to the register, a
  one-byte write stores it.
\<close>

definition file_read :: "(int \<Rightarrow> byte) \<Rightarrow> int \<Rightarrow> byte \<times> (int \<Rightarrow> byte)" where
  "file_read m reg = (m reg, m)"

definition file_write :: "(int \<Rightarrow> byte) \<Rightarrow> int \<Rightarrow> byte list \<Rightarrow> (int \<Rightarrow> byte)" where
  "file_write m reg bs = (case bs of [v] \<Rightarrow> m(reg := v) | _ \<Rightarrow> m)"

definition file_bus :: "(int \<Rightarrow> byte) i2c" where
  "file_bus = \<lparr>readfrom_mem = file_read, writeto_mem = file_write\<rparr>"

section \<open>What the formatted string is compared with\<close>

text \<open>
  These definitions are not taken from the driver. \<open>colon_hex\<close> is the
  colon-separated rendering of a byte sequence with two upper-case hexadecimal
  digits per byte. \<open>parse_formatted\<close> reads such a string back: it splits
  the string at every colon, as \<^verbatim>\<open>str.split(':')\<close> does, and decodes each
  piece, which has to be exactly two hexadecimal digits, to a byte.
\<close>

definition HEX_digit :: "nat \<Rightarrow> char" where
  "HEX_digit n = ''0123456789ABCDEF'' ! n"

definition hex_pair :: "byte \<Rightarrow> string" where
  "hex_pair x = [HEX_digit (unat x div 16), HEX_digit (unat x mod 16)]"

fun colon_hex :: "byte list \<Rightarrow> string" where
  "colon_hex [] = []"
| "colon_hex [x] = hex_pair x"
| "colon_hex (x # y # ys) = hex_pair x @ '':'' @ colon_hex (y # ys)"

fun split_colon :: "string \<Rightarrow> string list" where
  "split_colon [] = [[]]"
| "split_colon (c # cs) =
     (if c = CHR '':'' then [] # split_colon cs
      else (case split_colon cs of [] \<Rightarrow> [[c]] | p # ps \<Rightarrow> (c # p) # ps))"

definition hex_value :: "char \<Rightarrow> nat option" where
  "hex_value c =
     (let k = (of_char c :: nat)
      in if 48 \<le> k \<and> k \<le> 57 then Some (k - 48)
         else if 65 \<le> k \<and> k \<le> 70 then Some (k - 55)
         else if 97 \<le> k \<and> k \<le> 102 then Some (k - 87)
         else None)"

definition hex_decode :: "string \<Rightarrow> byte option" where
  "hex_decode p =
     (case p of
        [a, b] \<Rightarrow>
          (case (hex_value a, hex_value b) of
             (Some h, Some l) \<Rightarrow> Some (word_of_nat (16 * h + l))
           | _ \<Rightarrow> None)
      | _ \<Rightarrow> None)"

fun decode_all :: "string list \<Rightarrow> byte list option" where
  "decode_all [] = Some []"
| "decode_all (p # ps) =
     (case hex_decode p of
        None \<Rightarrow> None
      | Some x \<Rightarrow> (case decode_all ps of None \<Rightarrow> None | Some xs \<Rightarrow> Some (x # xs)))"

definition parse_formatted :: "string \<Rightarrow> byte list option" where
  "parse_formatted s = decode_all (split_colon s)"

section \<open>Auxiliary definitions for the proofs\<close>

text \<open>
  A property of chip states that every read and every write keeps. It stands
  for "the chip, from here on": a hypothesis on all states with the property
  is a hypothesis on everything the driver can observe during a call.
\<close>

definition chip_invariant :: "'d i2c \<Rightarrow> ('d \<Rightarrow> bool) \<Rightarrow> bool" where
  "chip_invariant b I \<longleftrightarrow>
     (\<forall>d reg. I d \<longrightarrow> I (snd (readfrom_mem b d reg))) \<and>
     (\<forall>d reg bs. I d \<longrightarrow> I (writeto_mem b d reg bs))"

text \<open>The chip state on which the poll loop of \<^verbatim>\<open>_tocard\<close> starts: the writes before the loop.\<close>
definition tocard_start :: "'d i2c \<Rightarrow> 'd \<Rightarrow> byte \<Rightarrow> byte list \<Rightarrow> 'd" where
  "tocard_start b d cmd send =
     (let d1 = wreg b d REG_COMMAND CMD_IDLE;
          d2 = wreg b d1 REG_COM_IRQ 0x7F;
          d3 = sflags b d2 REG_FIFO_LEVEL 0x80;
          d4 = wfifo b d3 REG_FIFO_DATA send;
          d5 = (if cmd = CMD_TRANCEIVE then sflags b d4 REG_BIT_FRAMING 0x00 else d4);
          d6 = wreg b d5 REG_COMMAND cmd
      in (if cmd = CMD_TRANCEIVE then sflags b d6 REG_BIT_FRAMING 0x80 else d6))"

text \<open>What one round of the formatting loop appends for a byte, after the colon.\<close>

definition piece :: "byte \<Rightarrow> string" where
  "piece x = (if x < 16 then ''0'' else []) @ py_hex (unat x)"

section \<open>Chips for the examples\<close>


definition level0_chip :: script_chip where
  "level0_chip = \<lparr>pending = [(REG_COM_IRQ, [0x30]), (REG_FIFO_LEVEL, [0, 0]),
                              (REG_CONTROL, [0x03])]\<rparr>"

definition level17_chip :: script_chip where
  "level17_chip = \<lparr>pending = [(REG_COM_IRQ, [0x30]), (REG_FIFO_LEVEL, [0, 17])]\<rparr>"

definition short_chip :: script_chip where
  "short_chip = \<lparr>pending = [(REG_COM_IRQ, [0x30]), (REG_FIFO_LEVEL, [0, 4]),
                             (REG_FIFO_DATA, [0x01, 0x02, 0x03, 0x04])]\<rparr>"

definition timer_chip :: script_chip where
  "timer_chip = \<lparr>pending = [(REG_COM_IRQ, [0x01])]\<rparr>"

definition spent_chip :: script_chip where
  "spent_chip =
     \<lparr>pending = [(REG_COM_IRQ, []), (REG_DIV_IRQ, []), (REG_FIFO_LEVEL, []),
                 (REG_FIFO_DATA, [])]\<rparr>"

definition single_chip :: script_chip where
  "single_chip =
     \<lparr>pending = [(REG_COM_IRQ, [0x30, 0x30]), (REG_DIV_IRQ, [0x00, 0x04]),
                 (REG_FIFO_LEVEL, [0, 5, 0, 0, 3]),
                 (REG_FIFO_DATA, [0x01, 0x02, 0x03, 0x04, 0x04, 0x00, 0xFE, 0x51])]\<rparr>"

definition double_selecting :: script_chip where
  "double_selecting =
     \<lparr>pending = [(REG_COM_IRQ, [0x30, 0x30, 0x30]),
                 (REG_DIV_IRQ, [0x00, 0x04, 0x00, 0x04]),
                 (REG_FIFO_LEVEL, [0, 0, 3, 0, 5, 0, 0, 3]),
                 (REG_FIFO_DATA, [0x04, 0xDA, 0x17,
                                  0x01, 0x02, 0x03, 0x04, 0x04, 0x00, 0xFE, 0x51])]\<rparr>"

definition double_chip :: script_chip where
  "double_chip =
     \<lparr>pending = [(REG_COM_IRQ, [0x30, 0x30, 0x30, 0x30]),
                 (REG_DIV_IRQ, [0x00, 0x04, 0x00, 0x04]),
                 (REG_FIFO_LEVEL, [0, 5, 0, 0, 3, 0, 5, 0, 0, 3]),
                 (REG_FIFO_DATA, [0x88, 0x04, 0x12, 0x34, 0xAA, 0x04, 0xDA, 0x17,
                                  0x01, 0x02, 0x03, 0x04, 0x04, 0x00, 0xFE, 0x51])]\<rparr>"

definition triple_chip :: script_chip where
  "triple_chip =
     \<lparr>pending = [(REG_COM_IRQ, [0x30, 0x30, 0x30, 0x30, 0x30]),
                 (REG_DIV_IRQ, [0x00, 0x04, 0x00, 0x04]),
                 (REG_FIFO_LEVEL, [0, 5, 0, 0, 3, 0, 5, 0, 0, 3, 0, 5]),
                 (REG_FIFO_DATA, [0x88, 0x04, 0x12, 0x34, 0xAA, 0x04, 0xDA, 0x17,
                                  0x88, 0x56, 0x78, 0x9A, 0x3C, 0x04, 0xDA, 0x17,
                                  0xBC, 0xDE, 0xF0, 0x11, 0x83])]\<rparr>"

definition mismatch_chip :: script_chip where
  "mismatch_chip =
     \<lparr>pending = [(REG_COM_IRQ, [0x30]), (REG_FIFO_LEVEL, [0, 5]),
                 (REG_FIFO_DATA, [0x88, 0x04, 0x12, 0x34, 0x00])]\<rparr>"

definition mismatch_tag :: script_chip where
  "mismatch_tag =
     \<lparr>pending = [(REG_COM_IRQ, [0x30, 0x30]), (REG_FIFO_LEVEL, [0, 2, 0, 5]),
                 (REG_FIFO_DATA, [0x44, 0x00, 0x88, 0x04, 0x12, 0x34, 0x00])]\<rparr>"


text \<open>The driver object right after construction, on a given chip.\<close>

definition fresh :: "'d \<Rightarrow> 'd rfid" where
  "fresh c = \<lparr>chip = c, tag_present = False, read_tag_id_success = False\<rparr>"

text \<open>A register file in which the antenna is on: the tx-control register holds \<open>0x83\<close>.\<close>

definition antenna_on_file :: "int \<Rightarrow> byte" where
  "antenna_on_file reg = (if reg = REG_TX_CONTROL then 0x83 else 0x00)"

section \<open>Properties of the driver on every chip\<close>

subsection \<open>Bytes and Python's integers\<close>

text \<open>
  The operations the driver applies to register values give, on \<open>8 word\<close>,
  the byte that Python computes on its integers: \<open>uint\<close> of the result is
  the integer operation on the \<open>uint\<close>s, also for \<^verbatim>\<open>x & ~mask\<close>, where
  Python's \<^verbatim>\<open>~mask\<close> is negative.
\<close>

lemma byte_or_int: "uint ((v :: byte) OR m) = uint v OR uint m"
  by (rule uint_or)

lemma byte_and_int: "uint ((v :: byte) AND m) = uint v AND uint m"
  by (rule uint_and)

lemma byte_xor_int: "uint ((v :: byte) XOR m) = uint v XOR uint m"
  by (rule uint_xor)

lemma byte_clear_int: "uint ((v :: byte) AND NOT m) = uint v AND NOT (uint m)"
  by (simp add: bit_eq_iff bit_simps) (auto dest: bit_imp_le_length)

lemma byte_range: "0 \<le> uint (v :: byte) \<and> uint v < 256"
  using uint_lt2p [of v] by simp

subsection \<open>The chip invariant through the driver\<close>

lemma inv_rreg: "chip_invariant b I \<Longrightarrow> I d \<Longrightarrow> I (snd (rreg b d reg))"
  by (simp add: chip_invariant_def rreg_def)

lemma inv_wreg: "chip_invariant b I \<Longrightarrow> I d \<Longrightarrow> I (wreg b d reg v)"
  by (simp add: chip_invariant_def wreg_def)

lemma inv_wfifo: "chip_invariant b I \<Longrightarrow> I d \<Longrightarrow> I (wfifo b d reg v)"
  by (simp add: chip_invariant_def wfifo_def)

lemma inv_sflags: "chip_invariant b I \<Longrightarrow> I d \<Longrightarrow> I (sflags b d reg m)"
  by (simp add: sflags_def split_def Let_def inv_rreg inv_wreg)

lemma inv_cflags: "chip_invariant b I \<Longrightarrow> I d \<Longrightarrow> I (cflags b d reg m)"
  by (simp add: cflags_def split_def Let_def inv_rreg inv_wreg)

lemma tocard_poll_step:
  "tocard_poll b d w i =
     (if fst (rreg b d REG_COM_IRQ) AND w \<noteq> 0 \<or> fst (rreg b d REG_COM_IRQ) AND 0x01 \<noteq> 0
         \<or> i - 1 = 0
      then (fst (rreg b d REG_COM_IRQ), i - 1, snd (rreg b d REG_COM_IRQ))
      else tocard_poll b (snd (rreg b d REG_COM_IRQ)) w (i - 1))"
  by (subst tocard_poll.simps) (simp add: split_def Let_def)

lemma inv_tocard_poll:
  "chip_invariant b I \<Longrightarrow> I d \<Longrightarrow> I (snd (snd (tocard_poll b d w i)))"
proof (induction i arbitrary: d rule: less_induct)
  case (less i)
  have d1: "I (snd (rreg b d REG_COM_IRQ))" using less.prems by (rule inv_rreg)
  show ?case
  proof (cases "fst (rreg b d REG_COM_IRQ) AND w \<noteq> 0
                \<or> fst (rreg b d REG_COM_IRQ) AND 0x01 \<noteq> 0 \<or> i - 1 = 0")
    case True
    then show ?thesis using d1 by (subst tocard_poll_step) simp
  next
    case False
    then have "i - 1 < i" by simp
    from less.IH [OF this less.prems(1) d1] False show ?thesis
      by (subst tocard_poll_step) simp
  qed
qed

lemma inv_fifo_drain:
  "chip_invariant b I \<Longrightarrow> I d \<Longrightarrow> I (snd (fifo_drain b d k))"
  by (induction k arbitrary: d) (auto simp: split_def Let_def inv_rreg)

lemma length_fifo_drain: "length (fst (fifo_drain b d k)) = k"
  by (induction k arbitrary: d) (auto simp: split_def Let_def)

lemma inv_tocard_start: "chip_invariant b I \<Longrightarrow> I d \<Longrightarrow> I (tocard_start b d cmd send)"
  by (simp add: tocard_start_def Let_def inv_wreg inv_sflags inv_wfifo)

lemma crc_poll_step:
  "crc_poll b d i =
     (if \<not> (i - 1 \<noteq> 0 \<and> \<not> (fst (rreg b d REG_DIV_IRQ) AND 0x04 \<noteq> 0))
      then (fst (rreg b d REG_DIV_IRQ), i - 1, snd (rreg b d REG_DIV_IRQ))
      else crc_poll b (snd (rreg b d REG_DIV_IRQ)) (i - 1))"
  by (subst crc_poll.simps) (simp add: split_def Let_def)

lemma inv_crc_poll:
  "chip_invariant b I \<Longrightarrow> I d \<Longrightarrow> I (snd (snd (crc_poll b d i)))"
proof (induction i arbitrary: d rule: less_induct)
  case (less i)
  have d1: "I (snd (rreg b d REG_DIV_IRQ))" using less.prems by (rule inv_rreg)
  show ?case
  proof (cases "\<not> (i - 1 \<noteq> 0 \<and> \<not> (fst (rreg b d REG_DIV_IRQ) AND 0x04 \<noteq> 0))")
    case True
    then show ?thesis using d1 by (subst crc_poll_step) simp
  next
    case False
    then have "i - 1 < i" by simp
    from less.IH [OF this less.prems(1) d1] False show ?thesis
      by (subst crc_poll_step) simp
  qed
qed

lemma inv_fifo_push:
  "chip_invariant b I \<Longrightarrow> I d \<Longrightarrow> I (fold (\<lambda>c x. wreg b x REG_FIFO_DATA c) data d)"
  by (induction data arbitrary: d) (simp_all add: inv_wreg)

lemma inv_crc: "chip_invariant b I \<Longrightarrow> I d \<Longrightarrow> I (snd (crc b d data))"
  by (simp add: crc_def Let_def split_def inv_rreg inv_wreg inv_crc_poll inv_fifo_push
        inv_sflags inv_cflags)

subsection \<open>The command runner\<close>

text \<open>
  On a chip that never shows the wait bits or the timer bit, the poll loop
  uses up its budget.
\<close>

lemma tocard_poll_silent:
  assumes "chip_invariant b I" "I d"
    and "\<forall>x. I x \<longrightarrow> fst (readfrom_mem b x REG_COM_IRQ) AND w = 0
                   \<and> fst (readfrom_mem b x REG_COM_IRQ) AND 0x01 = 0"
  shows "fst (snd (tocard_poll b d w i)) = 0"
  using assms(2)
proof (induction i arbitrary: d rule: less_induct)
  case (less i)
  have d1: "I (snd (rreg b d REG_COM_IRQ))" using assms(1) less.prems by (rule inv_rreg)
  have n: "fst (rreg b d REG_COM_IRQ) AND w = 0" "fst (rreg b d REG_COM_IRQ) AND 0x01 = 0"
    using less.prems assms(3) by (simp_all add: rreg_def)
  show ?case
  proof (cases "i - 1 = 0")
    case True
    then show ?thesis using n by (subst tocard_poll_step) simp
  next
    case False
    then have "i - 1 < i" by simp
    from less.IH [OF this d1] n False show ?thesis
      by (subst tocard_poll_step) simp
  qed
qed


text \<open>
  \<^verbatim>\<open>_tocard\<close> is: the writes before the loop, the loop, the rest.
\<close>

lemma tocard_unfold:
  "tocard b d cmd send =
     (let (n, i, d8) = tocard_poll b (tocard_start b d cmd send) (wait_irq_of cmd) 20000;
          d9 = cflags b d8 REG_BIT_FRAMING 0x80
      in if i \<noteq> 0 then
           (let (e, d10) = rreg b d9 REG_ERROR
            in if e AND 0x1B = 0x00 then
                 (if n AND irq_en_of cmd AND 0x01 \<noteq> 0 then (NOTAGERR, [], 0, d10)
                  else if cmd = CMD_TRANCEIVE then
                    (let (n1, d11) = rreg b d10 REG_FIFO_LEVEL;
                         (c, d12) = rreg b d11 REG_CONTROL;
                         lbits = c AND 0x07;
                         bits = (if lbits \<noteq> 0 then (uint n1 - 1) * 8 + uint lbits
                                 else uint n1 * 8);
                         n2 = (if n1 = 0 then 1 else if n1 > 16 then 16 else n1);
                         (recv, d13) = fifo_drain b d12 (unat n2)
                     in (OK, recv, bits, d13))
                  else (OK, [], 0, d10))
               else (ERR, [], 0, d10))
         else (ERR, [], 0, d9))"
  by (simp add: tocard_def tocard_start_def Let_def)

text \<open>
  Bytes are returned only with the status \<^verbatim>\<open>OK\<close>.
\<close>

lemma tocard_not_OK:
  "tocard b d cmd send = (stat, recv, bits, d') \<Longrightarrow> stat \<noteq> OK \<Longrightarrow> recv = [] \<and> bits = 0"
  by (auto simp: tocard_unfold Let_def split_def split: if_splits)

lemma tocard_silent:
  assumes inv: "chip_invariant b I" and d: "I d"
    and silent: "\<forall>x. I x \<longrightarrow> fst (readfrom_mem b x REG_COM_IRQ) AND wait_irq_of cmd = 0
                       \<and> fst (readfrom_mem b x REG_COM_IRQ) AND 0x01 = 0"
  shows "\<exists>d'. tocard b d cmd send = (ERR, [], 0, d')"
proof -
  have "fst (snd (tocard_poll b (tocard_start b d cmd send) (wait_irq_of cmd) 20000)) = 0"
    by (rule tocard_poll_silent [OF inv inv_tocard_start [OF inv d] silent])
  then show ?thesis
    by (simp add: tocard_unfold split_def Let_def)
qed

lemma tocard_bits_cases:
  assumes "tocard b d cmd send = (stat, recv, bits, d')"
    and "x = snd (rreg b (cflags b (snd (snd (tocard_poll b (tocard_start b d cmd send)
                        (wait_irq_of cmd) 20000))) REG_BIT_FRAMING 0x80) REG_ERROR)"
    and "n1 = fst (rreg b x REG_FIFO_LEVEL)"
    and "c = fst (rreg b (snd (rreg b x REG_FIFO_LEVEL)) REG_CONTROL)"
  shows "(recv = [] \<and> bits = 0) \<or>
         (length recv = unat (if n1 = 0 then 1 else if n1 > 16 then 16 else n1)
            \<and> bits = (if c AND 0x07 \<noteq> 0 then (uint n1 - 1) * 8 + uint (c AND 0x07)
                       else uint n1 * 8))"
  using assms(1) unfolding assms(2-4)
  by (simp add: tocard_unfold Let_def split_def split: if_splits)
     (auto simp: length_fifo_drain)

lemma uint_and7: "uint ((c :: byte) AND 0x07) \<le> 7"
proof -
  have "c AND 0x07 \<le> 0x07" by (rule word_and_le1)
  then have "uint (c AND 0x07) \<le> uint (0x07 :: byte)" by (simp only: word_le_def)
  then show ?thesis by simp
qed

lemma fifo_bits_bound:
  fixes n1 c :: byte
  assumes "n1 \<le> 16"
  shows "(if c AND 0x07 \<noteq> 0 then (uint n1 - 1) * 8 + uint (c AND 0x07) else uint n1 * 8)
         \<le> 8 * int (unat (if n1 = 0 then 1 else if n1 > 16 then 16 else n1))"
proof -
  have l: "uint (c AND 0x07) \<le> 7" by (rule uint_and7)
  have n: "0 \<le> uint n1" by simp
  have u: "int (unat n1) = uint n1" by simp
  show ?thesis
  proof (cases "n1 = 0")
    case True
    then show ?thesis using l by simp
  next
    case False
    with assms have "\<not> n1 > 16" by simp
    with False show ?thesis using l n by (simp add: u)
  qed
qed

text \<open>
  Claim C4, as amended. On a chip whose FIFO-level register never reads above
  16 (0 included), every outcome of \<^verbatim>\<open>_tocard\<close> has a bit count of at
  most 8 times the number of bytes returned.
\<close>

theorem tocard_bits_bound:
  assumes inv: "chip_invariant b I" and d: "I d"
    and level: "\<forall>x. I x \<longrightarrow> fst (readfrom_mem b x REG_FIFO_LEVEL) \<le> 16"
    and run: "tocard b d cmd send = (stat, recv, bits, d')"
  shows "bits \<le> 8 * int (length recv)"
proof -
  let ?x = "snd (rreg b (cflags b (snd (snd (tocard_poll b (tocard_start b d cmd send)
                        (wait_irq_of cmd) 20000))) REG_BIT_FRAMING 0x80) REG_ERROR)"
  have "I ?x"
    by (intro inv_rreg [OF inv] inv_cflags [OF inv] inv_tocard_poll [OF inv]
          inv_tocard_start [OF inv] d)
  with level have le: "fst (rreg b ?x REG_FIFO_LEVEL) \<le> 16" by (simp add: rreg_def)
  from tocard_bits_cases [OF run refl refl refl] show ?thesis
  proof
    assume "recv = [] \<and> bits = 0"
    then show ?thesis by simp
  next
    assume "length recv = unat (if fst (rreg b ?x REG_FIFO_LEVEL) = 0 then 1
              else if fst (rreg b ?x REG_FIFO_LEVEL) > 16 then 16
              else fst (rreg b ?x REG_FIFO_LEVEL))
      \<and> bits = (if fst (rreg b (snd (rreg b ?x REG_FIFO_LEVEL)) REG_CONTROL) AND 0x07 \<noteq> 0
              then (uint (fst (rreg b ?x REG_FIFO_LEVEL)) - 1) * 8
                   + uint (fst (rreg b (snd (rreg b ?x REG_FIFO_LEVEL)) REG_CONTROL) AND 0x07)
              else uint (fst (rreg b ?x REG_FIFO_LEVEL)) * 8)"
    then show ?thesis using fifo_bits_bound [OF le] by simp
  qed
qed


subsection \<open>Anticollision and select\<close>

lemma ser_chk_of_xor: "ser_chk_of recv = recv ! 0 XOR recv ! 1 XOR recv ! 2 XOR recv ! 3"
proof -
  have "[0..<4] = [0, 1, 2, 3 :: nat]" by (simp add: upt_conv_Cons)
  then show ?thesis by (simp add: ser_chk_of_def xor.assoc)
qed

lemma anticoll_unfold:
  assumes "tocard b (wreg b d REG_BIT_FRAMING 0x00) CMD_TRANCEIVE [anticolN, 0x20]
             = (stat, recv, bits, d')"
  shows "anticoll b d anticolN =
           ((if stat = OK then
               (if length recv = 5 then (if ser_chk_of recv \<noteq> recv ! 4 then ERR else OK)
                else ERR)
             else stat), recv, d')"
  using assms by (simp add: anticoll_def Let_def)

lemma anticoll_run:
  assumes "tocard b (wreg b d REG_BIT_FRAMING 0x00) CMD_TRANCEIVE [anticolN, 0x20]
             = (OK, recv, bits, d')"
    and "length recv = 5"
    and "recv ! 0 XOR recv ! 1 XOR recv ! 2 XOR recv ! 3 = recv ! 4"
  shows "anticoll b d anticolN = (OK, recv, d')"
  using assms(2,3) by (simp add: anticoll_unfold [OF assms(1)] ser_chk_of_xor)

text \<open>
  Claim C5, as amended. Let the command runner return \<open>(stat, recv, bits, d')\<close>
  for the anticollision frame. A five-byte answer whose first four bytes do not
  XOR to the fifth gives \<^verbatim>\<open>ERR\<close>; a five-byte answer whose first four bytes
  XOR to the fifth gives \<^verbatim>\<open>OK\<close> and the five bytes; an answer of any other
  length gives a status that is not \<^verbatim>\<open>OK\<close>: \<^verbatim>\<open>NOTAGERR\<close> when that is
  what the runner returned, \<^verbatim>\<open>ERR\<close> otherwise.
\<close>

theorem anticoll_checksum:
  assumes run: "tocard b (wreg b d REG_BIT_FRAMING 0x00) CMD_TRANCEIVE [anticolN, 0x20]
             = (stat, recv, bits, d')"
  shows "(length recv = 5 \<and> recv ! 0 XOR recv ! 1 XOR recv ! 2 XOR recv ! 3 \<noteq> recv ! 4
            \<longrightarrow> anticoll b d anticolN = (ERR, recv, d'))
       \<and> (length recv = 5 \<and> recv ! 0 XOR recv ! 1 XOR recv ! 2 XOR recv ! 3 = recv ! 4
            \<longrightarrow> anticoll b d anticolN = (OK, recv, d'))
       \<and> (length recv \<noteq> 5
            \<longrightarrow> anticoll b d anticolN = ((if stat = NOTAGERR then NOTAGERR else ERR), recv, d'))"
proof -
  have ok: "length recv = 5 \<Longrightarrow> stat = OK"
    using tocard_not_OK [OF run] by (cases "stat = OK") auto
  show ?thesis
    using ok by (cases stat) (auto simp: anticoll_unfold [OF run] ser_chk_of_xor)
qed

lemma anticoll_OK_length:
  assumes "anticoll b d anticolN = (OK, uid, d')"
  shows "length uid = 5"
proof -
  obtain stat recv bits x where
    run: "tocard b (wreg b d REG_BIT_FRAMING 0x00) CMD_TRANCEIVE [anticolN, 0x20]
            = (stat, recv, bits, x)"
    by (metis prod_cases4)
  from assms show ?thesis
    unfolding anticoll_unfold [OF run] by (auto split: if_splits)
qed

lemma selectTag_succeeds_iff:
  "fst (selectTag b d serNum anticolN) = 1 \<longleftrightarrow>
     (let buf = [anticolN, 0x70] @ serNum;
          (pOut, d1) = crc b d buf;
          (status, backData, backLen, d2) = tocard b d1 0x0C (buf @ [pOut ! 0] @ [pOut ! 1])
      in status = OK \<and> backLen = 0x18)"
  by (simp add: selectTag_def Let_def split_def)

text \<open>
  On a chip that never shows the receive bits or the timer bit, a select
  fails.
\<close>

lemma selectTag_silent:
  assumes inv: "chip_invariant b I" and d: "I d"
    and silent: "\<forall>x. I x \<longrightarrow> fst (readfrom_mem b x REG_COM_IRQ) AND 0x30 = 0
                       \<and> fst (readfrom_mem b x REG_COM_IRQ) AND 0x01 = 0"
  shows "fst (selectTag b d serNum anticolN) = 0"
proof -
  let ?buf = "[anticolN, 0x70] @ serNum"
  have c: "I (snd (crc b d ?buf))" using inv d by (rule inv_crc)
  have w: "wait_irq_of 0x0C = 0x30" by (simp add: wait_irq_of_def)
  from tocard_silent [OF inv c, of "0x0C"] silent w
  obtain d' where
    "tocard b (snd (crc b d ?buf)) 0x0C (?buf @ [fst (crc b d ?buf) ! 0] @ [fst (crc b d ?buf) ! 1])
       = (ERR, [], 0, d')"
    by auto
  then show ?thesis by (simp add: selectTag_def Let_def split_def)
qed

subsection \<open>The formatted identifier\<close>

lemma below_16_cases:
  "n < 16 \<Longrightarrow> n \<in> {0, 1, 2, 3, 4, 5, 6, 7, 8, 9, 10, 11, 12, 13, 14, 15 :: nat}"
  by (simp add: numeral_eq_Suc less_Suc_eq)

lemma upper_hex_digit: "n < 16 \<Longrightarrow> upper_char (hex_digit n) = HEX_digit n"
  by (drule below_16_cases) (auto simp: upper_char_def hex_digit_def HEX_digit_def char_of_eq_iff)

lemma hex_value_HEX_digit: "n < 16 \<Longrightarrow> hex_value (HEX_digit n) = Some n"
  by (drule below_16_cases) (auto simp: hex_value_def HEX_digit_def)

lemma HEX_digit_not_colon: "n < 16 \<Longrightarrow> HEX_digit n \<noteq> CHR '':''"
  by (drule below_16_cases) (auto simp: HEX_digit_def)

lemma unat_byte_div: "unat (x :: byte) div 16 < 16"
proof -
  have "unat x < 256" using unsigned_less [of x, where ?'a = nat] by simp
  then show ?thesis by simp
qed

lemma hex_decode_hex_pair: "hex_decode (hex_pair x) = Some x"
  by (simp add: hex_decode_def hex_pair_def hex_value_HEX_digit unat_byte_div)

lemma hex_pair_no_colon: "CHR '':'' \<notin> set (hex_pair x)"
  using HEX_digit_not_colon [of "unat x div 16"] HEX_digit_not_colon [of "unat x mod 16"]
  by (auto simp: hex_pair_def unat_byte_div)

lemma py_hex_small: "n < 16 \<Longrightarrow> py_hex n = [hex_digit n]"
  by (subst py_hex.simps) simp

lemma py_hex_byte: "16 \<le> n \<Longrightarrow> n < 256 \<Longrightarrow> py_hex n = [hex_digit (n div 16), hex_digit (n mod 16)]"
  by (subst py_hex.simps) (simp add: py_hex_small)

lemma upper_piece: "upper (piece x) = hex_pair x"
proof (cases "x < 16")
  case True
  then have u: "unat x < 16" by (simp add: word_less_nat_alt)
  then have "unat x div 16 = 0" "unat x mod 16 = unat x" by simp_all
  with True u show ?thesis
    by (simp add: piece_def upper_def py_hex_small hex_pair_def upper_hex_digit)
       (simp add: upper_char_def HEX_digit_def)
next
  case False
  then have u: "16 \<le> unat x" by (simp add: word_less_nat_alt)
  have v: "unat x < 256" using unsigned_less [of x, where ?'a = nat] by simp
  from False u v show ?thesis
    by (simp add: piece_def upper_def py_hex_byte hex_pair_def upper_hex_digit)
qed

lemma upper_append: "upper (s @ t) = upper s @ upper t"
  by (simp add: upper_def)

lemma upper_colon: "upper '':'' = '':''"
  by (simp add: upper_def upper_char_def)

lemma format_loop_step:
  "format_loop (x # xs) i s =
     format_loop xs (i + 1) ((if i > 0 then s @ '':'' else s) @ piece x)"
  by (simp add: piece_def Let_def)

lemma format_loop_later:
  "0 < i \<Longrightarrow> upper (format_loop xs i s) = upper s @ concat (map (\<lambda>x. '':'' @ hex_pair x) xs)"
proof (induction xs arbitrary: i s)
  case Nil
  then show ?case by simp
next
  case (Cons x xs)
  have "upper (format_loop (x # xs) i s) = upper (format_loop xs (i + 1) ((s @ '':'') @ piece x))"
    using Cons.prems by (simp only: format_loop_step if_True)
  also have "\<dots> = upper ((s @ '':'') @ piece x) @ concat (map (\<lambda>x. '':'' @ hex_pair x) xs)"
    by (rule Cons.IH) simp
  also have "upper ((s @ '':'') @ piece x) = upper s @ '':'' @ hex_pair x"
    by (simp only: upper_append upper_colon upper_piece append_assoc)
  finally show ?case by simp
qed

lemma colon_hex_Cons: "colon_hex (x # xs) = hex_pair x @ concat (map (\<lambda>x. '':'' @ hex_pair x) xs)"
  by (induction xs arbitrary: x) simp_all

text \<open>
  The formatting loop followed by \<^verbatim>\<open>upper()\<close> gives the colon-separated
  rendering with two upper-case digits per byte.
\<close>

lemma format_id_colon_hex: "format_id xs = colon_hex xs"
proof (cases xs)
  case Nil
  then show ?thesis by (simp add: format_id_def upper_def)
next
  case (Cons x ys)
  have "format_id (x # ys) = upper (format_loop ys (0 + 1) ([] @ piece x))"
    by (simp only: format_id_def format_loop_step less_irrefl if_False)
  also have "\<dots> = upper ([] @ piece x) @ concat (map (\<lambda>x. '':'' @ hex_pair x) ys)"
    by (rule format_loop_later) simp
  also have "\<dots> = colon_hex (x # ys)"
    by (simp only: colon_hex_Cons append_Nil upper_piece)
  finally show ?thesis by (simp only: Cons)
qed

lemma split_colon_nonempty: "split_colon s \<noteq> []"
  by (induction s) (auto split: list.splits)

lemma split_colon_piece:
  "CHR '':'' \<notin> set p \<Longrightarrow> split_colon (p @ CHR '':'' # rest) = p # split_colon rest"
  by (induction p) auto

lemma split_colon_last: "CHR '':'' \<notin> set p \<Longrightarrow> split_colon p = [p]"
  by (induction p) auto

lemma parse_colon_hex: "xs \<noteq> [] \<Longrightarrow> parse_formatted (colon_hex xs) = Some xs"
proof (induction xs rule: colon_hex.induct)
  case 1
  then show ?case by simp
next
  case (2 x)
  show ?case
    by (simp add: parse_formatted_def split_colon_last [OF hex_pair_no_colon] hex_decode_hex_pair)
next
  case (3 x y ys)
  then have "decode_all (split_colon (colon_hex (y # ys))) = Some (y # ys)"
    by (simp add: parse_formatted_def)
  then show ?case
    by (simp add: parse_formatted_def split_colon_piece [OF hex_pair_no_colon]
          hex_decode_hex_pair)
qed

subsection \<open>The cascade\<close>

lemma finish_id_eq:
  assumes "length uid = 5"
  shows "finish_id v uid =
           \<lparr>success = True, id_integers = v @ take 4 uid,
            id_formatted = format_id (v @ take 4 uid),
            tag_type = (if length v = 0 then ''classic'' else ''ntag'')\<rparr>"
  using assms by (simp add: finish_id_def format_id_def Let_def)

text \<open>
  \<^verbatim>\<open>_readTagID\<close> in terms of what the five calls it can make return.
\<close>

lemma readTagID_priv_char:
  assumes a1: "anticoll b d TAG_CMD_ANTCOL1 = (st1, uid1, d1)"
    and s1: "selectTag b d1 uid1 TAG_CMD_ANTCOL1 = (r1, d2)"
    and a2: "anticoll b d2 TAG_CMD_ANTCOL2 = (st2, uid2, d3)"
    and s2: "selectTag b d3 uid2 TAG_CMD_ANTCOL2 = (r2, d4)"
    and a3: "anticoll b d4 TAG_CMD_ANTCOL3 = (st3, uid3, d5)"
  shows "readTagID_priv b d =
          (if st1 \<noteq> OK then (result0, d1)
           else if r1 = 0 then (result0, d2)
           else if uid1 ! 0 \<noteq> 0x88 then (finish_id [] uid1, d2)
           else if st2 \<noteq> OK then (result0, d3)
           else if r2 = 0 then (result0, d4)
           else if uid2 ! 0 \<noteq> 0x88 then (finish_id (take 3 (drop 1 uid1)) uid2, d4)
           else if st3 \<noteq> OK then (result0, d5)
           else (finish_id (take 3 (drop 1 uid1) @ take 3 (drop 1 uid2)) uid3, d5))"
  by (simp add: readTagID_priv_def a1 s1 a2 s2 a3 Let_def)

text \<open>
  Claim C1. If the level-1 anticollision answer is \<open>[0x88, b1, b2, b3, chk]\<close>
  with a valid checksum and the level-1 select succeeds, and the level-2
  anticollision answer is \<open>[c1, c2, c3, c4, chk']\<close> with a valid checksum and
  \<open>c1 \<noteq> 0x88\<close> and the level-2 select succeeds, then \<^verbatim>\<open>_readTagID\<close> returns
  success, the seven bytes \<open>[b1, b2, b3, c1, c2, c3, c4]\<close>, their colon-separated
  upper-case two-digit rendering, and the kind \<open>ntag\<close>. A select succeeds,
  that is \<^verbatim>\<open>_selectTag\<close> returns 1, exactly when its command is \<^verbatim>\<open>OK\<close>
  with 24 bits (lemma \<open>selectTag_succeeds_iff\<close>).
\<close>

theorem two_level_identification:
  fixes b1 b2 b3 chk c1 c2 c3 c4 chk' :: byte
  assumes a1: "tocard b (wreg b d REG_BIT_FRAMING 0x00) CMD_TRANCEIVE [TAG_CMD_ANTCOL1, 0x20]
                 = (OK, [0x88, b1, b2, b3, chk], n1, d1)"
    and k1: "0x88 XOR b1 XOR b2 XOR b3 = chk"
    and s1: "selectTag b d1 [0x88, b1, b2, b3, chk] TAG_CMD_ANTCOL1 = (1, d2)"
    and a2: "tocard b (wreg b d2 REG_BIT_FRAMING 0x00) CMD_TRANCEIVE [TAG_CMD_ANTCOL2, 0x20]
                 = (OK, [c1, c2, c3, c4, chk'], n2, d3)"
    and k2: "c1 XOR c2 XOR c3 XOR c4 = chk'"
    and m2: "c1 \<noteq> 0x88"
    and s2: "selectTag b d3 [c1, c2, c3, c4, chk'] TAG_CMD_ANTCOL2 = (1, d4)"
  shows "readTagID_priv b d =
           (\<lparr>success = True, id_integers = [b1, b2, b3, c1, c2, c3, c4],
             id_formatted = colon_hex [b1, b2, b3, c1, c2, c3, c4],
             tag_type = ''ntag''\<rparr>, d4)"
proof -
  have l1: "anticoll b d TAG_CMD_ANTCOL1 = (OK, [0x88, b1, b2, b3, chk], d1)"
    using k1 by (intro anticoll_run [OF a1]) simp_all
  have l2: "anticoll b d2 TAG_CMD_ANTCOL2 = (OK, [c1, c2, c3, c4, chk'], d3)"
    using k2 by (intro anticoll_run [OF a2]) simp_all
  obtain st3 uid3 d5 where l3: "anticoll b d4 TAG_CMD_ANTCOL3 = (st3, uid3, d5)"
    by (cases "anticoll b d4 TAG_CMD_ANTCOL3") auto
  show ?thesis
    using m2 by (simp add: readTagID_priv_char [OF l1 s1 l2 s2 l3] finish_id_eq
                   format_id_colon_hex)
qed


text \<open>
  Claim C2, as amended. Whenever the cascade fails (anticollision not
  \<^verbatim>\<open>OK\<close> at level 1, 2 or 3, which covers a checksum mismatch, or select
  failure at level 1 or 2), \<^verbatim>\<open>_readTagID\<close> returns \<open>success = False\<close> with an
  empty identifier, and the public \<^verbatim>\<open>readTagID\<close> returns \<open>success = False\<close>
  with the one-element list \<open>[0]\<close>.
\<close>

theorem cascade_failure:
  assumes a1: "anticoll b d TAG_CMD_ANTCOL1 = (st1, uid1, d1)"
    and s1: "selectTag b d1 uid1 TAG_CMD_ANTCOL1 = (r1, d2)"
    and a2: "anticoll b d2 TAG_CMD_ANTCOL2 = (st2, uid2, d3)"
    and s2: "selectTag b d3 uid2 TAG_CMD_ANTCOL2 = (r2, d4)"
    and a3: "anticoll b d4 TAG_CMD_ANTCOL3 = (st3, uid3, d5)"
    and fail: "st1 \<noteq> OK \<or> r1 = 0 \<or>
               (uid1 ! 0 = 0x88 \<and> (st2 \<noteq> OK \<or> r2 = 0 \<or> (uid2 ! 0 = 0x88 \<and> st3 \<noteq> OK)))"
    and q1: "detectTag b s = (q1, s1)"
    and q2: "detectTag b s1 = (q2, s2)"
    and d: "d = chip (if present q1 then s1 else s2)"
  shows "fst (readTagID_priv b d) =
           \<lparr>success = False, id_integers = [], id_formatted = [], tag_type = []\<rparr>
       \<and> fst (readTagID b s) =
           \<lparr>success = False, id_integers = [0], id_formatted = [], tag_type = []\<rparr>"
proof -
  have priv: "fst (readTagID_priv b d) = result0"
    using fail by (auto simp: readTagID_priv_def a1 s1 a2 s2 a3 Let_def)
  have "fst (readTagID b s) =
          \<lparr>success = False, id_integers = [0], id_formatted = [], tag_type = []\<rparr>"
    using priv d
    by (cases "present q1")
       (auto simp: readTagID_def q1 q2 Let_def split_def result0_def)
  with priv show ?thesis by (simp add: result0_def)
qed

text \<open>
  A successful \<^verbatim>\<open>_readTagID\<close> returns 4, 7 or 10 bytes and their
  formatted string.
\<close>

lemma readTagID_priv_success:
  assumes ok: "success (fst (readTagID_priv b d))"
  shows "length (id_integers (fst (readTagID_priv b d))) \<in> {4, 7, 10}
       \<and> id_formatted (fst (readTagID_priv b d))
           = format_id (id_integers (fst (readTagID_priv b d)))"
proof -
  obtain st1 uid1 d1 where a1: "anticoll b d TAG_CMD_ANTCOL1 = (st1, uid1, d1)"
    by (cases "anticoll b d TAG_CMD_ANTCOL1") auto
  obtain r1 d2 where s1: "selectTag b d1 uid1 TAG_CMD_ANTCOL1 = (r1, d2)"
    by (cases "selectTag b d1 uid1 TAG_CMD_ANTCOL1") auto
  obtain st2 uid2 d3 where a2: "anticoll b d2 TAG_CMD_ANTCOL2 = (st2, uid2, d3)"
    by (cases "anticoll b d2 TAG_CMD_ANTCOL2") auto
  obtain r2 d4 where s2: "selectTag b d3 uid2 TAG_CMD_ANTCOL2 = (r2, d4)"
    by (cases "selectTag b d3 uid2 TAG_CMD_ANTCOL2") auto
  obtain st3 uid3 d5 where a3: "anticoll b d4 TAG_CMD_ANTCOL3 = (st3, uid3, d5)"
    by (cases "anticoll b d4 TAG_CMD_ANTCOL3") auto
  have l1: "st1 = OK \<Longrightarrow> length uid1 = 5" using a1 by (auto intro: anticoll_OK_length)
  have l2: "st2 = OK \<Longrightarrow> length uid2 = 5" using a2 by (auto intro: anticoll_OK_length)
  have l3: "st3 = OK \<Longrightarrow> length uid3 = 5" using a3 by (auto intro: anticoll_OK_length)
  from ok l1 l2 l3 show ?thesis
    by (simp add: readTagID_priv_char [OF a1 s1 a2 s2 a3] finish_id_eq result0_def
          split: if_splits)
qed

text \<open>
  Claim C9. Reading back the formatted string of an identifier of 4, 7
  or 10 bytes gives the identifier; and every successful \<^verbatim>\<open>_readTagID\<close>
  returns an identifier of 4, 7 or 10 bytes with a formatted string that reads
  back to it.
\<close>

theorem formatted_round_trip:
  "(length uid \<in> {4, 7, 10} \<longrightarrow> parse_formatted (format_id uid) = Some uid)
   \<and> (success (fst (readTagID_priv b d)) \<longrightarrow>
        length (id_integers (fst (readTagID_priv b d))) \<in> {4, 7, 10}
        \<and> parse_formatted (id_formatted (fst (readTagID_priv b d)))
            = Some (id_integers (fst (readTagID_priv b d))))"
proof -
  have "parse_formatted (format_id xs) = Some xs" if "length xs \<in> {4, 7, 10}" for xs
    using that by (auto simp: format_id_colon_hex intro: parse_colon_hex)
  then show ?thesis using readTagID_priv_success [of b d] by auto
qed

subsection \<open>The public calls\<close>


subsection \<open>The antenna\<close>

lemma antenna_guard: "NOT (uint (v :: byte) AND 0x03) \<noteq> (0 :: int)"
proof
  assume "NOT (uint v AND 0x03) = (0 :: int)"
  then have "uint v AND 0x03 = - 1" by (simp only: not_int_def)
  moreover have "0 \<le> uint v AND 0x03" by simp
  ultimately show False by arith
qed

lemma antennaOff_no_write: "antennaOff b d = Inr (snd (readfrom_mem b d REG_TX_CONTROL))"
  unfolding antennaOff_def rreg_def
  by (simp only: split_def Let_def antenna_guard if_False simp_thms)

lemma antennaOn_writes:
  "antennaOn b d =
     (let (v, d1) = readfrom_mem b d REG_TX_CONTROL;
          (v1, d2) = readfrom_mem b d1 REG_TX_CONTROL
      in writeto_mem b d2 REG_TX_CONTROL [v1 OR 0x83])"
  unfolding antennaOn_def rreg_def wreg_def sflags_def
  by (simp only: split_def Let_def antenna_guard if_True simp_thms)

section \<open>The driver on the example chips\<close>

subsection \<open>Evaluation on the scripted chip\<close>

lemmas bus_simps = wreg_def wfifo_def rreg_def sflags_def cflags_def
  script_bus_def script_read_def script_write_def

lemma fifo_drain_numeral:
  "fifo_drain b d (numeral k) =
     (let (x, d1) = rreg b d REG_FIFO_DATA;
          (xs, d2) = fifo_drain b d1 (pred_numeral k)
      in (x # xs, d2))"
  by (simp add: numeral_eq_Suc)

lemmas run_simps = tocard_def tocard_poll.simps crc_def crc_poll.simps irq_en_of_def
  wait_irq_of_def fifo_drain_numeral bus_simps Let_def

lemmas run_congs = let_weak_cong prod.case_cong_weak

lemmas cascade_simps = readTagID_priv_def anticoll_def selectTag_def request_def
  ser_chk_of_xor finish_id_def format_id_def detectTag_def readTagID_def tagPresent_def
  result0_def fresh_def

lemma stream_of_set_stream:
  "stream_of (set_stream ps reg v) r = (if r = reg then v else stream_of ps r)"
  by (induction ps reg v rule: set_stream.induct) auto

text \<open>
  A property of all the bytes left in one register's stream is a chip
  invariant of the scripted chip.
\<close>

lemma script_invariant:
  "chip_invariant script_bus (\<lambda>c :: script_chip. \<forall>x \<in> set (stream_of (pending c) reg). P x)"
  by (auto simp: chip_invariant_def script_bus_def script_read_def script_write_def
        stream_of_set_stream split: list.splits)

lemma script_read_value:
  "\<forall>x \<in> set (stream_of (pending c) reg). P x \<Longrightarrow> P 0 \<Longrightarrow>
     P (fst (readfrom_mem script_bus c reg))"
  by (auto simp: script_bus_def script_read_def split: list.splits)

lemma triple_collapse: "t = (fst t, fst (snd t), snd (snd t))"
  by simp

subsection \<open>Runs\<close>

lemma level0_run:
  "fst (tocard script_bus level0_chip CMD_TRANCEIVE [TAG_CMD_ANTCOL1, 0x20]) = OK"
  "fst (snd (tocard script_bus level0_chip CMD_TRANCEIVE [TAG_CMD_ANTCOL1, 0x20])) = [0]"
  "fst (snd (snd (tocard script_bus level0_chip CMD_TRANCEIVE [TAG_CMD_ANTCOL1, 0x20]))) = - 5"
  by (simp_all add: level0_chip_def run_simps cong: run_congs)

lemma single_anticoll:
  "tocard script_bus (wreg script_bus single_chip REG_BIT_FRAMING 0x00) CMD_TRANCEIVE send
    = (OK, [0x01, 0x02, 0x03, 0x04, 0x04], 40,
       \<lparr>pending = [(REG_COM_IRQ, [0x30]), (REG_DIV_IRQ, [0x00, 0x04]),
                   (REG_FIFO_LEVEL, [0, 0, 3]), (REG_FIFO_DATA, [0x00, 0xFE, 0x51])]\<rparr>)"
  by (simp add: single_chip_def run_simps cong: run_congs)

lemma single_select:
  "selectTag script_bus
      \<lparr>pending = [(REG_COM_IRQ, [0x30]), (REG_DIV_IRQ, [0x00, 0x04]),
                  (REG_FIFO_LEVEL, [0, 0, 3]), (REG_FIFO_DATA, [0x00, 0xFE, 0x51])]\<rparr>
      [0x01, 0x02, 0x03, 0x04, 0x04] anticolN
    = (1, spent_chip)"
  by (simp add: spent_chip_def selectTag_def run_simps cong: run_congs)

lemma double_anticoll:
  "tocard script_bus (wreg script_bus double_chip REG_BIT_FRAMING 0x00) CMD_TRANCEIVE
      [TAG_CMD_ANTCOL1, 0x20]
    = (OK, [0x88, 0x04, 0x12, 0x34, 0xAA], 40, double_selecting)"
  by (simp add: double_chip_def double_selecting_def run_simps cong: run_congs)

lemma double_select:
  "selectTag script_bus double_selecting [0x88, 0x04, 0x12, 0x34, 0xAA] TAG_CMD_ANTCOL1
    = (1, single_chip)"
  by (simp add: double_selecting_def single_chip_def selectTag_def run_simps cong: run_congs)

lemma triple_run:
  "readTagID_priv script_bus triple_chip =
     (\<lparr>success = True,
       id_integers = [0x04, 0x12, 0x34, 0x56, 0x78, 0x9A, 0xBC, 0xDE, 0xF0, 0x11],
       id_formatted = format_id [0x04, 0x12, 0x34, 0x56, 0x78, 0x9A, 0xBC, 0xDE, 0xF0, 0x11],
       tag_type = ''ntag''\<rparr>, spent_chip)"
  by (simp add: triple_chip_def spent_chip_def readTagID_priv_def anticoll_def selectTag_def
        ser_chk_of_xor finish_id_def format_id_def result0_def run_simps cong: run_congs)

lemma mismatch_detect:
  "detectTag script_bus (fresh mismatch_tag) =
     (\<lparr>present = True, ATQA = 16\<rparr>,
      \<lparr>chip = mismatch_chip, tag_present = True, read_tag_id_success = False\<rparr>)"
  by (simp add: mismatch_tag_def mismatch_chip_def fresh_def detectTag_def request_def
        run_simps cong: run_congs)

lemma mismatch_anticoll:
  "tocard script_bus (wreg script_bus mismatch_chip REG_BIT_FRAMING 0x00) CMD_TRANCEIVE send
     = (OK, [0x88, 0x04, 0x12, 0x34, 0x00], 40,
        \<lparr>pending = [(REG_COM_IRQ, []), (REG_FIFO_LEVEL, []), (REG_FIFO_DATA, [])]\<rparr>)"
  by (simp add: mismatch_chip_def run_simps cong: run_congs)

lemma short_anticoll:
  "tocard script_bus (wreg script_bus short_chip REG_BIT_FRAMING 0x00) CMD_TRANCEIVE send
     = (OK, [0x01, 0x02, 0x03, 0x04], 32,
        \<lparr>pending = [(REG_COM_IRQ, []), (REG_FIFO_LEVEL, []), (REG_FIFO_DATA, [])]\<rparr>)"
  by (simp add: short_chip_def run_simps cong: run_congs)

lemma timer_anticoll:
  "tocard script_bus (wreg script_bus timer_chip REG_BIT_FRAMING 0x00) CMD_TRANCEIVE send
     = (NOTAGERR, [], 0, \<lparr>pending = [(REG_COM_IRQ, [])]\<rparr>)"
  by (simp add: timer_chip_def run_simps cong: run_congs)


lemma single_anticoll_OK:
  "anticoll script_bus single_chip anticolN
     = (OK, [0x01, 0x02, 0x03, 0x04, 0x04],
        \<lparr>pending = [(REG_COM_IRQ, [0x30]), (REG_DIV_IRQ, [0x00, 0x04]),
                    (REG_FIFO_LEVEL, [0, 0, 3]), (REG_FIFO_DATA, [0x00, 0xFE, 0x51])]\<rparr>)"
  by (rule anticoll_run [OF single_anticoll]) simp_all

lemma double_anticoll_OK:
  "anticoll script_bus double_chip TAG_CMD_ANTCOL1
     = (OK, [0x88, 0x04, 0x12, 0x34, 0xAA], double_selecting)"
  by (rule anticoll_run [OF double_anticoll]) simp_all


lemma double_success: "success (fst (readTagID_priv script_bus double_chip))"
  by (simp add: readTagID_priv_char [OF double_anticoll_OK double_select single_anticoll_OK
        single_select triple_collapse] finish_id_def)


lemma spent_select:
  "fst (selectTag script_bus spent_chip serNum anticolN) = 0"
proof -
  let ?P = "\<lambda>x :: byte. x AND 0x30 = 0 \<and> x AND 0x01 = 0"
  let ?I = "\<lambda>c :: script_chip. \<forall>x \<in> set (stream_of (pending c) REG_COM_IRQ). ?P x"
  have inv: "chip_invariant script_bus ?I" by (rule script_invariant)
  have start: "?I spent_chip" by (simp add: spent_chip_def)
  have silent: "\<forall>x. ?I x \<longrightarrow> fst (readfrom_mem script_bus x REG_COM_IRQ) AND 0x30 = 0
      \<and> fst (readfrom_mem script_bus x REG_COM_IRQ) AND 0x01 = 0"
  proof (intro allI impI)
    fix x :: script_chip assume "?I x"
    then show "?P (fst (readfrom_mem script_bus x REG_COM_IRQ))"
      by (rule script_read_value [where P = ?P]) simp
  qed
  show ?thesis by (rule selectTag_silent [OF inv start silent])
qed

lemma antennaOn_file: "antennaOn file_bus m REG_TX_CONTROL AND 0x03 = 0x03"
proof -
  have "(m REG_TX_CONTROL OR 0x83) AND 0x03 = (m REG_TX_CONTROL AND 0x03) OR (0x83 AND 0x03)"
    by (rule bit.conj_disj_distrib2)
  also have "(0x83 :: byte) AND 0x03 = 0x03" by simp
  also have "(m REG_TX_CONTROL AND 0x03) OR 0x03 = 0x03"
    by simp
  finally show ?thesis
    by (simp add: antennaOn_writes file_bus_def file_read_def file_write_def)
qed

subsection \<open>The claims on the example chips\<close>

text \<open>
  C1 on \<open>double_chip\<close>: the scenario with the level-1 answer
  \<open>88 04 12 34 AA\<close> and the level-2 answer \<open>01 02 03 04 04\<close>.
\<close>

theorem two_level_identification_witness:
  "readTagID_priv script_bus double_chip =
     (\<lparr>success = True, id_integers = [0x04, 0x12, 0x34, 0x01, 0x02, 0x03, 0x04],
       id_formatted = ''04:12:34:01:02:03:04'', tag_type = ''ntag''\<rparr>, spent_chip)"
proof -
  have k1: "(0x88 :: byte) XOR 0x04 XOR 0x12 XOR 0x34 = 0xAA" by simp
  have k2: "(0x01 :: byte) XOR 0x02 XOR 0x03 XOR 0x04 = 0x04" by simp
  have m2: "(0x01 :: byte) \<noteq> 0x88" by simp
  have "colon_hex [0x04, 0x12, 0x34, 0x01, 0x02, 0x03, 0x04 :: byte] = ''04:12:34:01:02:03:04''"
    by (simp add: hex_pair_def HEX_digit_def)
  with two_level_identification
         [OF double_anticoll k1 double_select single_anticoll k2 m2 single_select]
  show ?thesis by simp
qed

text \<open>
  C2 as amended, on a tag that answers the request and then sends an
  anticollision answer with a wrong checksum.
\<close>

theorem cascade_failure_witness:
  "fst (readTagID_priv script_bus mismatch_chip) =
     \<lparr>success = False, id_integers = [], id_formatted = [], tag_type = []\<rparr>
   \<and> fst (readTagID script_bus (fresh mismatch_tag)) =
     \<lparr>success = False, id_integers = [0], id_formatted = [], tag_type = []\<rparr>"
proof -
  have a1: "anticoll script_bus mismatch_chip TAG_CMD_ANTCOL1
      = (ERR, [0x88, 0x04, 0x12, 0x34, 0x00],
         \<lparr>pending = [(REG_COM_IRQ, []), (REG_FIFO_LEVEL, []), (REG_FIFO_DATA, [])]\<rparr>)"
    by (simp add: anticoll_unfold [OF mismatch_anticoll] ser_chk_of_xor)
  have fail: "ERR \<noteq> OK \<or> fst (selectTag script_bus
        \<lparr>pending = [(REG_COM_IRQ, []), (REG_FIFO_LEVEL, []), (REG_FIFO_DATA, [])]\<rparr>
        [0x88, 0x04, 0x12, 0x34, 0x00] TAG_CMD_ANTCOL1) = 0 \<or> X" for X
    by simp
  have d: "mismatch_chip = chip (if present \<lparr>present = True, ATQA = 16\<rparr>
              then \<lparr>chip = mismatch_chip, tag_present = True, read_tag_id_success = False\<rparr>
              else snd (detectTag script_bus
                \<lparr>chip = mismatch_chip, tag_present = True, read_tag_id_success = False\<rparr>))"
    by simp
  show ?thesis
    by (rule cascade_failure [OF a1 surjective_pairing triple_collapse surjective_pairing
          triple_collapse fail mismatch_detect surjective_pairing d])
qed

text \<open>
  Claim C2 as stated fails for the public call: on that tag the request
  finds the tag, the anticollision is rejected, and \<^verbatim>\<open>readTagID\<close> returns
  an identifier that is not empty.
\<close>

theorem cascade_failure_counterexample:
  "present (fst (detectTag script_bus (fresh mismatch_tag)))
   \<and> fst (anticoll script_bus mismatch_chip TAG_CMD_ANTCOL1) = ERR
   \<and> \<not> success (fst (readTagID script_bus (fresh mismatch_tag)))
   \<and> id_integers (fst (readTagID script_bus (fresh mismatch_tag))) \<noteq> []"
  by (simp add: mismatch_tag_def mismatch_chip_def cascade_simps run_simps cong: run_congs)

text \<open>
  Claim C3 does not hold of the code. On \<open>triple_chip\<close> both the
  level-1 and the level-2 fragment start with \<open>0x88\<close> and the level-3
  anticollision is answered; after that the chip is spent. A select on the
  spent chip fails (its poll runs out of budget), yet \<^verbatim>\<open>_readTagID\<close>
  returns success with the ten-byte identifier: no level-3 select is part of
  the cascade.
\<close>

theorem triple_without_select:
  "readTagID_priv script_bus triple_chip =
     (\<lparr>success = True,
       id_integers = [0x04, 0x12, 0x34, 0x56, 0x78, 0x9A, 0xBC, 0xDE, 0xF0, 0x11],
       id_formatted = ''04:12:34:56:78:9A:BC:DE:F0:11'',
       tag_type = ''ntag''\<rparr>, spent_chip)
   \<and> fst (selectTag script_bus spent_chip [0xBC, 0xDE, 0xF0, 0x11, 0x83] TAG_CMD_ANTCOL3) = 0"
proof -
  have "format_id [0x04, 0x12, 0x34, 0x56, 0x78, 0x9A, 0xBC, 0xDE, 0xF0, 0x11]
          = ''04:12:34:56:78:9A:BC:DE:F0:11''"
    by (simp add: format_id_colon_hex hex_pair_def HEX_digit_def)
  then show ?thesis by (simp add: triple_run spent_select)
qed

text \<open>C4 as amended, on the chip that reports FIFO level 0: \<open>-5 \<le> 8 * 1\<close>.\<close>

theorem tocard_bits_bound_witness:
  "fst (snd (snd (tocard script_bus level0_chip CMD_TRANCEIVE [TAG_CMD_ANTCOL1, 0x20])))
     \<le> 8 * int (length (fst (snd (tocard script_bus level0_chip CMD_TRANCEIVE
                                    [TAG_CMD_ANTCOL1, 0x20]))))"
proof -
  let ?I = "\<lambda>c :: script_chip. \<forall>x \<in> set (stream_of (pending c) REG_FIFO_LEVEL). x \<le> 16"
  have inv: "chip_invariant script_bus ?I" by (rule script_invariant)
  have start: "?I level0_chip" by (simp add: level0_chip_def)
  have level: "\<forall>x. ?I x \<longrightarrow> fst (readfrom_mem script_bus x REG_FIFO_LEVEL) \<le> 16"
  proof (intro allI impI)
    fix x :: script_chip assume "?I x"
    then show "fst (readfrom_mem script_bus x REG_FIFO_LEVEL) \<le> 16"
      by (rule script_read_value [where P = "\<lambda>v. v \<le> 16"]) simp
  qed
  have run: "tocard script_bus level0_chip CMD_TRANCEIVE [TAG_CMD_ANTCOL1, 0x20] =
      (fst (tocard script_bus level0_chip CMD_TRANCEIVE [TAG_CMD_ANTCOL1, 0x20]),
       fst (snd (tocard script_bus level0_chip CMD_TRANCEIVE [TAG_CMD_ANTCOL1, 0x20])),
       fst (snd (snd (tocard script_bus level0_chip CMD_TRANCEIVE [TAG_CMD_ANTCOL1, 0x20]))),
       snd (snd (snd (tocard script_bus level0_chip CMD_TRANCEIVE [TAG_CMD_ANTCOL1, 0x20]))))"
    by simp
  show ?thesis by (rule tocard_bits_bound [OF inv start level run])
qed

text \<open>
  Claim C4 as stated fails when the FIFO level reads 17: the bit count is
  136, computed before the level is clamped, and 16 bytes are returned.
\<close>

theorem tocard_bits_counterexample:
  "fst (snd (snd (tocard script_bus level17_chip CMD_TRANCEIVE [TAG_CMD_ANTCOL1, 0x20]))) = 136
   \<and> length (fst (snd (tocard script_bus level17_chip CMD_TRANCEIVE [TAG_CMD_ANTCOL1, 0x20]))) = 16
   \<and> \<not> fst (snd (snd (tocard script_bus level17_chip CMD_TRANCEIVE [TAG_CMD_ANTCOL1, 0x20])))
         \<le> 8 * int (length (fst (snd (tocard script_bus level17_chip CMD_TRANCEIVE
                                        [TAG_CMD_ANTCOL1, 0x20]))))"
  by (simp add: level17_chip_def run_simps cong: run_congs)

text \<open>
  C5 as amended, on a chip with a valid answer, a chip with a wrong
  checksum and a chip with a four-byte answer.
\<close>

theorem anticoll_checksum_witness:
  "fst (anticoll script_bus single_chip TAG_CMD_ANTCOL1) = OK
   \<and> fst (snd (anticoll script_bus single_chip TAG_CMD_ANTCOL1)) = [0x01, 0x02, 0x03, 0x04, 0x04]
   \<and> fst (anticoll script_bus mismatch_chip TAG_CMD_ANTCOL1) = ERR
   \<and> fst (anticoll script_bus short_chip TAG_CMD_ANTCOL1) = ERR"
  using anticoll_checksum [OF single_anticoll] anticoll_checksum [OF mismatch_anticoll]
    anticoll_checksum [OF short_anticoll]
  by simp

text \<open>
  Claim C5 as stated fails when no tag answers: the runner returns
  \<^verbatim>\<open>NOTAGERR\<close> with no bytes, and \<^verbatim>\<open>_anticoll\<close> passes that status on,
  not \<^verbatim>\<open>ERR\<close>.
\<close>

theorem anticoll_checksum_counterexample:
  "length (fst (snd (anticoll script_bus timer_chip TAG_CMD_ANTCOL1))) \<noteq> 5
   \<and> fst (anticoll script_bus timer_chip TAG_CMD_ANTCOL1) = NOTAGERR
   \<and> fst (anticoll script_bus timer_chip TAG_CMD_ANTCOL1) \<noteq> ERR"
  by (simp add: anticoll_unfold [OF timer_anticoll])


text \<open>
  Claim C7 does not hold of the code. On a register file whose
  tx-control register holds \<open>0x83\<close>, \<^verbatim>\<open>antennaOff\<close> returns with the
  register file unchanged: the two low bits are still set. The guard of
  \<^verbatim>\<open>antennaOff\<close> is never true (lemma \<open>antennaOff_no_write\<close>), so the
  register is read and never written; \<^verbatim>\<open>antennaOn\<close> does set the bits
  (lemma \<open>antennaOn_file\<close>).
\<close>

theorem antennaOff_keeps_bits:
  "antennaOff file_bus antenna_on_file = Inr antenna_on_file
   \<and> antenna_on_file REG_TX_CONTROL AND 0x03 = 0x03"
  by (simp add: antennaOff_no_write file_bus_def file_read_def antenna_on_file_def)


text \<open>
  C9 on the seven bytes \<open>04 12 34 01 02 03 04\<close> and on the result of
  \<^verbatim>\<open>_readTagID\<close> on \<open>double_chip\<close>.
\<close>

theorem formatted_round_trip_witness:
  "parse_formatted (format_id [0x04, 0x12, 0x34, 0x01, 0x02, 0x03, 0x04])
     = Some [0x04, 0x12, 0x34, 0x01, 0x02, 0x03, 0x04]
   \<and> parse_formatted (id_formatted (fst (readTagID_priv script_bus double_chip)))
     = Some (id_integers (fst (readTagID_priv script_bus double_chip)))"
  using formatted_round_trip [of "[0x04, 0x12, 0x34, 0x01, 0x02, 0x03, 0x04]"
          script_bus double_chip] double_success
  by simp


end
